theory Spec2Isabelle
  imports Main "HOL-Library.Word"
begin

section \<open>The DNS proxy's script bridge: \<open>modules/dns_proxy/dns_proxy_js_query.go\<close>\<close>

text \<open>
  The file converts a wire message (\<open>dns.Msg\<close>) into a \<open>JSQuery\<close>, a structure of
  dynamically typed maps that a script may edit, converts it back, and keeps a fingerprint
  (\<open>refHash\<close>) that tells whether the script changed anything.

  Conventions of the embedding:
  \<^item> a Go \<open>interface{}\<close> value is a \<open>jsval\<close>; numbers are identified by their value
    (\<open>JNum\<close>), whatever Go integer type carries them; \<open>JUnsupported\<close> stands for the
    values that \<open>json.Marshal\<close> refuses (a NaN or an infinity, a function, a channel), with
    a label that tells them apart;
  \<^item> a Go \<open>map[string]interface{}\<close> is \<open>None\<close> when it is the nil map and otherwise
    \<open>Some\<close> of the association list of its entries (keys distinct);
  \<^item> a slice of a \<open>JSQuery\<close> is \<open>None\<close> when it is the nil slice and otherwise \<open>Some\<close>
    of the list of its elements (\<open>json.Marshal\<close> writes the two differently); a slice of
    the wire message is the list of its elements;
  \<^item> a method with a pointer receiver returns its result together with the receiver as
    the method leaves it;
  \<^item> \<open>log.Error\<close> is a write-only sink: a function that logs returns the list of the
    messages it logged, in order;
  \<^item> the collaborators that live outside the file (\<open>NewJSResourceRecord\<close>, \<open>ToRR\<close>,
    \<open>session.I.Lan.GetByIp\<close>) are parameters of the functions that call them.
\<close>

subsection \<open>Data\<close>

datatype jsval =
    JNull
  | JBool bool
  | JNum int
  | JString string
  | JList "jsval list"
  | JMap "(string \<times> jsval) list"
  | JUnsupported string

type_synonym jsmap = "(string \<times> jsval) list option"

type_synonym 'a slice = "'a list option"

text \<open>The elements a \<open>range\<close> loop visits: none for the nil slice.\<close>

definition elems :: "'a slice \<Rightarrow> 'a list" where
  "elems s = (case s of None \<Rightarrow> [] | Some xs \<Rightarrow> xs)"

text \<open>The wire message of \<open>github.com/miekg/dns\<close>; \<open>'rr\<close> is the type of a resource
  record (\<open>dns.RR\<close>).\<close>

record dns_Question =
  Name :: string
  Qtype :: "16 word"
  Qclass :: "16 word"

record dns_MsgHdr =
  Id :: "16 word"
  Response :: bool
  Opcode :: int
  Authoritative :: bool
  Truncated :: bool
  RecursionDesired :: bool
  RecursionAvailable :: bool
  Zero :: bool
  AuthenticatedData :: bool
  CheckingDisabled :: bool
  Rcode :: int

record 'rr dns_Msg =
  MsgHdr :: dns_MsgHdr
  Compress :: bool
  Question :: "dns_Question list"
  Answer :: "'rr list"
  Ns :: "'rr list"
  Extra :: "'rr list"

text \<open>The endpoint of the address book, as far as \<open>NewJSQuery\<close> reads it.\<close>

record Endpoint =
  HwAddress :: string
  Alias :: string

record JSQueryHeader =
  AuthenticatedData :: bool
  Authoritative :: bool
  CheckingDisabled :: bool
  Id :: "16 word"
  Opcode :: int
  Rcode :: int
  RecursionAvailable :: bool
  RecursionDesired :: bool
  Response :: bool
  Truncated :: bool
  Zero :: bool

record JSQuery =
  Answers :: "jsmap slice"
  Client :: "string \<rightharpoonup> string"
  Compress :: bool
  Extras :: "jsmap slice"
  Header :: JSQueryHeader
  Nameservers :: "jsmap slice"
  Questions :: "jsmap slice"
  refHash :: string

subsection \<open>\<open>fmt.Sprintf\<close>: the verbs \<open>%t\<close>, \<open>%d\<close> and \<open>%s\<close>\<close>

definition fmt_t :: "bool \<Rightarrow> string" where
  "fmt_t b = (if b then ''true'' else ''false'')"

definition digit :: "nat \<Rightarrow> char" where
  "digit d = ''0123456789'' ! d"

fun dec_nat :: "nat \<Rightarrow> string" where
  "dec_nat n = (if n < 10 then [digit n] else dec_nat (n div 10) @ [digit (n mod 10)])"

declare dec_nat.simps [simp del]

definition fmt_d :: "int \<Rightarrow> string" where
  "fmt_d i = (if i < 0 then ''-'' @ dec_nat (nat (- i)) else dec_nat (nat i))"

text \<open>Reading a Go \<open>map[string]string\<close> at a missing key gives the empty string.\<close>

definition map_get :: "(string \<rightharpoonup> string) \<Rightarrow> string \<Rightarrow> string" where
  "map_get m k = (case m k of None \<Rightarrow> [] | Some v \<Rightarrow> v)"

subsection \<open>\<open>json.Marshal\<close>\<close>

text \<open>
  \<open>encoding/json\<close> of the Go standard library, on the values of \<open>jsval\<close>: \<open>null\<close>,
  \<open>true\<close>/\<open>false\<close>, integers in decimal, strings quoted and escaped, arrays in order,
  objects with their keys sorted bytewise, the nil map and the nil slice as \<open>null\<close>. The
  result is \<open>None\<close> when \<open>json.Marshal\<close> returns an error, which it does as soon as
  one value anywhere inside cannot be encoded.

  A string is escaped as Go does with HTML escaping on (the default of \<open>json.Marshal\<close>):
  the bytes below 0x20, the double quote, the backslash and \<open><\<close>, \<open>>\<close>, \<open>&\<close> are
  escaped; a byte that does not start a well-formed UTF-8 sequence becomes the six
  characters backslash, u, f, f, f, d; U+2028 and U+2029 become their u-escapes; everything
  else is copied. (Backspace and form feed are written as Go 1.22 and later write them.)
\<close>

definition hex :: "nat \<Rightarrow> char" where
  "hex d = ''0123456789abcdef'' ! d"

definition htmlSafe :: "char \<Rightarrow> bool" where
  "htmlSafe c = (let b = (of_char c :: nat) in
     0x20 \<le> b \<and> b \<noteq> 0x22 \<and> b \<noteq> 0x26 \<and> b \<noteq> 0x3C \<and> b \<noteq> 0x3E \<and> b \<noteq> 0x5C)"

definition escape_byte :: "char \<Rightarrow> string" where
  "escape_byte c = (let b = (of_char c :: nat) in
     if b = 0x5C \<or> b = 0x22 then [CHR 0x5C, c]
     else if b = 0x08 then [CHR 0x5C, CHR ''b'']
     else if b = 0x0C then [CHR 0x5C, CHR ''f'']
     else if b = 0x0A then [CHR 0x5C, CHR ''n'']
     else if b = 0x0D then [CHR 0x5C, CHR ''r'']
     else if b = 0x09 then [CHR 0x5C, CHR ''t'']
     else [CHR 0x5C] @ ''u00'' @ [hex (b div 16), hex (b mod 16)])"

text \<open>\<open>utf8.DecodeRuneInString\<close>, as far as the encoder needs it. \<open>lead_info\<close> is the
  table \<open>first\<close> with \<open>acceptRanges\<close>: the length of the sequence a lead byte announces
  and the range allowed for its second byte. \<open>rune_size s\<close> is \<open>Some n\<close> when \<open>s\<close> starts
  with a well-formed sequence of \<open>n\<close> bytes, and \<open>None\<close> when the decoder answers
  \<open>(RuneError, 1)\<close>.\<close>

definition lead_info :: "nat \<Rightarrow> (nat \<times> nat \<times> nat) option" where
  "lead_info b =
     (if 0xC2 \<le> b \<and> b \<le> 0xDF then Some (2, 0x80, 0xBF)
      else if b = 0xE0 then Some (3, 0xA0, 0xBF)
      else if 0xE1 \<le> b \<and> b \<le> 0xEC then Some (3, 0x80, 0xBF)
      else if b = 0xED then Some (3, 0x80, 0x9F)
      else if 0xEE \<le> b \<and> b \<le> 0xEF then Some (3, 0x80, 0xBF)
      else if b = 0xF0 then Some (4, 0x90, 0xBF)
      else if 0xF1 \<le> b \<and> b \<le> 0xF3 then Some (4, 0x80, 0xBF)
      else if b = 0xF4 then Some (4, 0x80, 0x8F)
      else None)"

definition in_range :: "nat \<Rightarrow> nat \<Rightarrow> char \<Rightarrow> bool" where
  "in_range lo hi c = (lo \<le> of_char c \<and> of_char c \<le> hi)"

definition rune_size :: "string \<Rightarrow> nat option" where
  "rune_size s =
     (case s of
        [] \<Rightarrow> None
      | s0 # _ \<Rightarrow>
          (case lead_info (of_char s0) of
             None \<Rightarrow> None
           | Some (sz, lo, hi) \<Rightarrow>
               if length s < sz then None
               else if \<not> in_range lo hi (s ! 1) then None
               else if sz \<le> 2 then Some 2
               else if \<not> in_range 0x80 0xBF (s ! 2) then None
               else if sz \<le> 3 then Some 3
               else if \<not> in_range 0x80 0xBF (s ! 3) then None
               else Some 4))"

function json_escape :: "string \<Rightarrow> string" where
  "json_escape [] = []"
| "json_escape (c # cs) =
     (if (of_char c :: nat) < 0x80 then
        (if htmlSafe c then [c] else escape_byte c) @ json_escape cs
      else
        (case rune_size (c # cs) of
           None \<Rightarrow> [CHR 0x5C] @ ''ufffd'' @ json_escape cs
         | Some n \<Rightarrow>
             (if take n (c # cs) = [CHR 0xE2, CHR 0x80, CHR 0xA8] then [CHR 0x5C] @ ''u2028''
              else if take n (c # cs) = [CHR 0xE2, CHR 0x80, CHR 0xA9] then [CHR 0x5C] @ ''u2029''
              else take n (c # cs))
             @ json_escape (drop n (c # cs))))"
  by pat_completeness auto
termination
  by (relation "measure length")
     (auto simp: rune_size_def split: list.splits option.splits if_splits)

definition json_string :: "string \<Rightarrow> string" where
  "json_string s = [CHR 0x22] @ json_escape s @ [CHR 0x22]"

fun commas :: "string list \<Rightarrow> string" where
  "commas [] = []"
| "commas [x] = x"
| "commas (x # y # r) = x @ '','' @ commas (y # r)"

text \<open>The keys of an object are written in bytewise order.\<close>

fun str_less :: "string \<Rightarrow> string \<Rightarrow> bool" where
  "str_less [] [] = False"
| "str_less [] (y # ys) = True"
| "str_less (x # xs) [] = False"
| "str_less (x # xs) (y # ys) =
     ((of_char x :: nat) < of_char y \<or> (x = y \<and> str_less xs ys))"

fun insert_field :: "string \<times> string \<Rightarrow> (string \<times> string) list \<Rightarrow> (string \<times> string) list" where
  "insert_field kv [] = [kv]"
| "insert_field kv (x # xs) =
     (if str_less (fst x) (fst kv) then x # insert_field kv xs else kv # x # xs)"

definition sort_fields :: "(string \<times> string) list \<Rightarrow> (string \<times> string) list" where
  "sort_fields kvs = foldr insert_field kvs []"

definition json_field :: "string \<times> string \<Rightarrow> string" where
  "json_field kv = json_string (fst kv) @ '':'' @ snd kv"

definition json_object :: "(string \<times> string) list \<Rightarrow> string" where
  "json_object kvs = ''{'' @ commas (map json_field (sort_fields kvs)) @ ''}''"

definition json_array :: "string list \<Rightarrow> string" where
  "json_array xs = ''['' @ commas xs @ '']''"

fun marshal_val :: "jsval \<Rightarrow> string option"
  and marshal_vals :: "jsval list \<Rightarrow> string list option"
  and marshal_fields :: "(string \<times> jsval) list \<Rightarrow> (string \<times> string) list option" where
  "marshal_val JNull = Some ''null''"
| "marshal_val (JBool b) = Some (fmt_t b)"
| "marshal_val (JNum i) = Some (fmt_d i)"
| "marshal_val (JString s) = Some (json_string s)"
| "marshal_val (JList vs) = map_option json_array (marshal_vals vs)"
| "marshal_val (JMap kvs) = map_option json_object (marshal_fields kvs)"
| "marshal_val (JUnsupported d) = None"
| "marshal_vals [] = Some []"
| "marshal_vals (v # vs) =
     (case marshal_val v of
        None \<Rightarrow> None
      | Some s \<Rightarrow> (case marshal_vals vs of None \<Rightarrow> None | Some ss \<Rightarrow> Some (s # ss)))"
| "marshal_fields [] = Some []"
| "marshal_fields (kv # kvs) =
     (case marshal_val (snd kv) of
        None \<Rightarrow> None
      | Some s \<Rightarrow>
          (case marshal_fields kvs of None \<Rightarrow> None | Some r \<Rightarrow> Some ((fst kv, s) # r)))"

text \<open>A map and a slice of maps as the values the encoder sees.\<close>

definition map_val :: "jsmap \<Rightarrow> jsval" where
  "map_val m = (case m of None \<Rightarrow> JNull | Some kvs \<Rightarrow> JMap kvs)"

definition slice_val :: "jsmap slice \<Rightarrow> jsval" where
  "slice_val s = (case s of None \<Rightarrow> JNull | Some ms \<Rightarrow> JList (map map_val ms))"

definition json_Marshal :: "jsmap slice \<Rightarrow> string option" where
  "json_Marshal s = marshal_val (slice_val s)"

text \<open>\<open>NewHash\<close> drops the error of \<open>json.Marshal\<close> (\<open>answers, _ := ...\<close>): after an error
  the byte slice is nil and \<open>%s\<close> prints nothing.\<close>

definition bytes :: "string option \<Rightarrow> string" where
  "bytes r = (case r of None \<Rightarrow> [] | Some s \<Rightarrow> s)"

subsection \<open>The fingerprint: \<open>NewHash\<close>, \<open>UpdateHash\<close>, \<open>WasModified\<close>\<close>

definition headerHash :: "JSQueryHeader \<Rightarrow> string" where
  "headerHash h =
     fmt_t (JSQueryHeader.AuthenticatedData h) @ ''.'' @
     fmt_t (JSQueryHeader.Authoritative h) @ ''.'' @
     fmt_t (JSQueryHeader.CheckingDisabled h) @ ''.'' @
     dec_nat (unat (JSQueryHeader.Id h)) @ ''.'' @
     fmt_d (JSQueryHeader.Opcode h) @ ''.'' @
     fmt_d (JSQueryHeader.Rcode h) @ ''.'' @
     fmt_t (JSQueryHeader.RecursionAvailable h) @ ''.'' @
     fmt_t (JSQueryHeader.RecursionDesired h) @ ''.'' @
     fmt_t (JSQueryHeader.Response h) @ ''.'' @
     fmt_t (JSQueryHeader.Truncated h) @ ''.'' @
     fmt_t (JSQueryHeader.Zero h)"

definition NewHash :: "JSQuery \<Rightarrow> string \<times> JSQuery" where
  "NewHash j =
     (let answers = bytes (json_Marshal (Answers j));
          extras = bytes (json_Marshal (Extras j));
          nameservers = bytes (json_Marshal (Nameservers j));
          questions = bytes (json_Marshal (Questions j));
          hash = answers @ ''.'' @
                 map_get (Client j) ''IP'' @ ''.'' @
                 fmt_t (JSQuery.Compress j) @ ''.'' @
                 extras @ ''.'' @
                 headerHash (Header j) @ ''.'' @
                 nameservers @ ''.'' @
                 questions
      in (hash, j))"

definition UpdateHash :: "JSQuery \<Rightarrow> JSQuery" where
  "UpdateHash j = (case NewHash j of (h, j') \<Rightarrow> j'\<lparr>refHash := h\<rparr>)"

definition WasModified :: "JSQuery \<Rightarrow> bool \<times> JSQuery" where
  "WasModified j = (case NewHash j of (h, j') \<Rightarrow> (h \<noteq> refHash j', j'))"

subsection \<open>The field coercion helpers\<close>

definition js_lookup :: "jsmap \<Rightarrow> string \<Rightarrow> jsval option" where
  "js_lookup obj key = (case obj of None \<Rightarrow> None | Some kvs \<Rightarrow> map_of kvs key)"

text \<open>Modelled from the spec: \<open>jsPropToString\<close> is called by \<open>ToQuery\<close> and defined in
  another file of the package. The spec: the value is coerced to a string; a value that is
  not a string, or a missing key, gives the empty string.\<close>

definition jsPropToString :: "jsmap \<Rightarrow> string \<Rightarrow> string" where
  "jsPropToString obj key =
     (case js_lookup obj key of Some (JString v) \<Rightarrow> v | _ \<Rightarrow> [])"

text \<open>Modelled from the spec: \<open>jsPropToUint16\<close> is called by \<open>ToQuery\<close> and defined in
  another file of the package. The spec: the value is coerced to an unsigned 16-bit
  integer; a value that is not a number, or a missing key, gives zero. The spec does not
  say what a number outside 0..65535 becomes; the Go conversion \<open>uint16(v)\<close> stands here,
  and no theorem below depends on it.\<close>

definition jsPropToUint16 :: "jsmap \<Rightarrow> string \<Rightarrow> 16 word" where
  "jsPropToUint16 obj key =
     (case js_lookup obj key of Some (JNum v) \<Rightarrow> word_of_int v | _ \<Rightarrow> 0)"

subsection \<open>\<open>NewJSQuery\<close>: wire message to \<open>JSQuery\<close>\<close>

text \<open>The loop over \<open>query.Answer\<close> (and \<open>Extra\<close>, \<open>Ns\<close>): \<open>slots\<close> is the slice made
  with \<open>make\<close> at the length of the record list (never nil), \<open>i\<close> the index of the record at hand,
  \<open>lg\<close> what has been logged so far. A failing record is logged and the loop goes on to
  the next index (\<open>continue\<close>); a converted record is stored at its index.\<close>

fun records_loop ::
  "('rr \<Rightarrow> string + jsmap) \<Rightarrow> nat \<Rightarrow> 'rr list \<Rightarrow> jsmap list \<Rightarrow> string list
     \<Rightarrow> jsmap list \<times> string list" where
  "records_loop NewJSResourceRecord i [] slots lg = (slots, lg)"
| "records_loop NewJSResourceRecord i (rr # rest) slots lg =
     (case NewJSResourceRecord rr of
        Inl err \<Rightarrow> records_loop NewJSResourceRecord (Suc i) rest slots (lg @ [err])
      | Inr jsRecord \<Rightarrow>
          records_loop NewJSResourceRecord (Suc i) rest (slots[i := jsRecord]) lg)"

fun questions_loop :: "nat \<Rightarrow> dns_Question list \<Rightarrow> jsmap list \<Rightarrow> jsmap list" where
  "questions_loop i [] slots = slots"
| "questions_loop i (question # rest) slots =
     questions_loop (Suc i) rest
       (slots[i := Some [(''Name'', JString (Name question)),
                         (''Qtype'', JNum (uint (Qtype question))),
                         (''Qclass'', JNum (uint (Qclass question)))]])"

definition NewJSQuery ::
  "('rr \<Rightarrow> string + jsmap) \<Rightarrow> (string \<Rightarrow> Endpoint option) \<Rightarrow> 'rr dns_Msg \<Rightarrow> string
     \<Rightarrow> JSQuery \<times> string list" where
  "NewJSQuery NewJSResourceRecord GetByIp query clientIP =
     (let (answers, lg1) =
            records_loop NewJSResourceRecord 0 (Answer query)
              (replicate (length (Answer query)) None) [];
          (extras, lg2) =
            records_loop NewJSResourceRecord 0 (Extra query)
              (replicate (length (Extra query)) None) lg1;
          (nameservers, lg3) =
            records_loop NewJSResourceRecord 0 (Ns query)
              (replicate (length (Ns query)) None) lg2;
          questions =
            questions_loop 0 (Question query) (replicate (length (Question query)) None);
          (clientMAC, clientAlias) =
            (case GetByIp clientIP of
               None \<Rightarrow> ([], [])
             | Some endpoint \<Rightarrow> (HwAddress endpoint, Alias endpoint));
          client = [''IP'' \<mapsto> clientIP, ''MAC'' \<mapsto> clientMAC, ''Alias'' \<mapsto> clientAlias];
          jsquery = \<lparr>
            Answers = Some answers,
            Client = client,
            Compress = dns_Msg.Compress query,
            Extras = Some extras,
            Header = \<lparr>
              AuthenticatedData = dns_MsgHdr.AuthenticatedData (MsgHdr query),
              Authoritative = dns_MsgHdr.Authoritative (MsgHdr query),
              CheckingDisabled = dns_MsgHdr.CheckingDisabled (MsgHdr query),
              Id = dns_MsgHdr.Id (MsgHdr query),
              Opcode = dns_MsgHdr.Opcode (MsgHdr query),
              Rcode = dns_MsgHdr.Rcode (MsgHdr query),
              RecursionAvailable = dns_MsgHdr.RecursionAvailable (MsgHdr query),
              RecursionDesired = dns_MsgHdr.RecursionDesired (MsgHdr query),
              Response = dns_MsgHdr.Response (MsgHdr query),
              Truncated = dns_MsgHdr.Truncated (MsgHdr query),
              Zero = dns_MsgHdr.Zero (MsgHdr query) \<rparr>,
            Nameservers = Some nameservers,
            Questions = Some questions,
            refHash = [] \<rparr>
      in (UpdateHash jsquery, lg3))"

subsection \<open>\<open>ToQuery\<close>: \<open>JSQuery\<close> to wire message\<close>

text \<open>The loop over \<open>j.Answers\<close> (and \<open>Extras\<close>, \<open>Nameservers\<close>): \<open>acc\<close> is the slice
  built with \<open>append\<close>, \<open>lg\<close> what has been logged so far.\<close>

fun rr_loop ::
  "(jsmap \<Rightarrow> string + 'rr) \<Rightarrow> jsmap list \<Rightarrow> 'rr list \<Rightarrow> string list
     \<Rightarrow> 'rr list \<times> string list" where
  "rr_loop ToRR [] acc lg = (acc, lg)"
| "rr_loop ToRR (jsRR # rest) acc lg =
     (case ToRR jsRR of
        Inl err \<Rightarrow> rr_loop ToRR rest acc (lg @ [err])
      | Inr rr \<Rightarrow> rr_loop ToRR rest (acc @ [rr]) lg)"

fun question_loop :: "jsmap list \<Rightarrow> dns_Question list \<Rightarrow> dns_Question list" where
  "question_loop [] acc = acc"
| "question_loop (jsQ # rest) acc =
     question_loop rest
       (acc @ [\<lparr> Name = jsPropToString jsQ ''Name'',
                  Qtype = jsPropToUint16 jsQ ''Qtype'',
                  Qclass = jsPropToUint16 jsQ ''Qclass'' \<rparr>])"

definition ToQuery ::
  "(jsmap \<Rightarrow> string + 'rr) \<Rightarrow> JSQuery \<Rightarrow> ('rr dns_Msg \<times> string list) \<times> JSQuery" where
  "ToQuery ToRR j =
     (let (answers, lg1) = rr_loop ToRR (elems (Answers j)) [] [];
          (extras, lg2) = rr_loop ToRR (elems (Extras j)) [] lg1;
          (nameservers, lg3) = rr_loop ToRR (elems (Nameservers j)) [] lg2;
          questions = question_loop (elems (Questions j)) [];
          query = \<lparr>
            MsgHdr = \<lparr>
              dns_MsgHdr.Id = JSQueryHeader.Id (Header j),
              dns_MsgHdr.Response = JSQueryHeader.Response (Header j),
              dns_MsgHdr.Opcode = JSQueryHeader.Opcode (Header j),
              dns_MsgHdr.Authoritative = JSQueryHeader.Authoritative (Header j),
              dns_MsgHdr.Truncated = JSQueryHeader.Truncated (Header j),
              dns_MsgHdr.RecursionDesired = JSQueryHeader.RecursionDesired (Header j),
              dns_MsgHdr.RecursionAvailable = JSQueryHeader.RecursionAvailable (Header j),
              dns_MsgHdr.Zero = JSQueryHeader.Zero (Header j),
              dns_MsgHdr.AuthenticatedData = JSQueryHeader.AuthenticatedData (Header j),
              dns_MsgHdr.CheckingDisabled = JSQueryHeader.CheckingDisabled (Header j),
              dns_MsgHdr.Rcode = JSQueryHeader.Rcode (Header j) \<rparr>,
            dns_Msg.Compress = JSQuery.Compress j,
            Question = questions,
            Answer = answers,
            Ns = nameservers,
            Extra = extras \<rparr>
      in ((query, lg3), j))"

subsection \<open>Functions that describe the loops\<close>

text \<open>What a conversion loop keeps and what it logs: the converted records in order, and
  the error messages in order.\<close>

definition oks :: "('a \<Rightarrow> 'e + 'b) \<Rightarrow> 'a list \<Rightarrow> 'b list" where
  "oks f xs = concat (map (\<lambda>x. case f x of Inl e \<Rightarrow> [] | Inr y \<Rightarrow> [y]) xs)"

definition errs :: "('a \<Rightarrow> 'e + 'b) \<Rightarrow> 'a list \<Rightarrow> 'e list" where
  "errs f xs = concat (map (\<lambda>x. case f x of Inl e \<Rightarrow> [e] | Inr y \<Rightarrow> []) xs)"

text \<open>The slot that \<open>NewJSQuery\<close> leaves for one record, the map it builds for one
  question, and the question \<open>ToQuery\<close> builds from one map.\<close>

definition slot_of :: "('rr \<Rightarrow> string + jsmap) \<Rightarrow> 'rr \<Rightarrow> jsmap" where
  "slot_of enc rr = (case enc rr of Inl e \<Rightarrow> None | Inr js \<Rightarrow> js)"

definition question_map :: "dns_Question \<Rightarrow> jsmap" where
  "question_map q =
     Some [(''Name'', JString (Name q)),
           (''Qtype'', JNum (uint (Qtype q))),
           (''Qclass'', JNum (uint (Qclass q)))]"

definition to_question :: "jsmap \<Rightarrow> dns_Question" where
  "to_question jsQ =
     \<lparr> Name = jsPropToString jsQ ''Name'',
       Qtype = jsPropToUint16 jsQ ''Qtype'',
       Qclass = jsPropToUint16 jsQ ''Qclass'' \<rparr>"

text \<open>Two values hold the same Go data. The entries of a Go map have no order, so two
  association lists stand for the same map when their keys are distinct and every key
  has the same data in both; slices are compared element by element, in order.\<close>

fun same_val :: "jsval \<Rightarrow> jsval \<Rightarrow> bool"
  and same_vals :: "jsval list \<Rightarrow> jsval list \<Rightarrow> bool"
  and same_entries :: "(string \<times> jsval) list \<Rightarrow> (string \<times> jsval) list \<Rightarrow> bool" where
  "same_val JNull w = (w = JNull)"
| "same_val (JBool b) w = (w = JBool b)"
| "same_val (JNum i) w = (w = JNum i)"
| "same_val (JString s) w = (w = JString s)"
| "same_val (JUnsupported d) w = (w = JUnsupported d)"
| "same_val (JList vs) w = (case w of JList ws \<Rightarrow> same_vals vs ws | _ \<Rightarrow> False)"
| "same_val (JMap kvs) w =
     (case w of
        JMap kvs' \<Rightarrow>
          distinct (map fst kvs) \<and> distinct (map fst kvs') \<and> length kvs = length kvs'
            \<and> same_entries kvs kvs'
      | _ \<Rightarrow> False)"
| "same_vals [] ws = (ws = [])"
| "same_vals (v # vs) ws = (case ws of [] \<Rightarrow> False | w # ws' \<Rightarrow> same_val v w \<and> same_vals vs ws')"
| "same_entries [] kvs' = True"
| "same_entries (kv # kvs) kvs' =
     ((case map_of kvs' (fst kv) of None \<Rightarrow> False | Some w \<Rightarrow> same_val (snd kv) w)
      \<and> same_entries kvs kvs')"

text \<open>Two results of the record converter are the same: two errors, or two maps with the
  same data.\<close>

definition same_result :: "string + jsmap \<Rightarrow> string + jsmap \<Rightarrow> bool" where
  "same_result r r' =
     (case r of
        Inl e \<Rightarrow> (case r' of Inl e' \<Rightarrow> True | Inr js' \<Rightarrow> False)
      | Inr js \<Rightarrow> (case r' of Inl e' \<Rightarrow> False | Inr js' \<Rightarrow> same_val (map_val js) (map_val js')))"

subsection \<open>Concrete inputs\<close>

text \<open>A small record codec over records that are plain numbers: a record is its \<open>Ttl\<close>;
  record 8 is of a type the codec does not know.\<close>

definition ex_NewJSResourceRecord :: "nat \<Rightarrow> string + jsmap" where
  "ex_NewJSResourceRecord rr =
     (if rr = 8 then Inl ''unknown type'' else Inr (Some [(''Ttl'', JNum (int rr))]))"

definition ex_ToRR :: "jsmap \<Rightarrow> string + nat" where
  "ex_ToRR js =
     (case js_lookup js ''Ttl'' of Some (JNum n) \<Rightarrow> Inr (nat n) | _ \<Rightarrow> Inl ''invalid record'')"


definition ex_NewJSResourceRecord2 :: "nat \<Rightarrow> string + jsmap" where
  "ex_NewJSResourceRecord2 rr =
     (if rr = 8 then Inl ''unknown type''
      else Inr (Some [(''Ttl'', JNum (int rr)),
                      (''Header'', JMap [(''Name'', JString ''example.com.''), (''Class'', JNum 1)])]))"

definition ex_NewJSResourceRecord3 :: "nat \<Rightarrow> string + jsmap" where
  "ex_NewJSResourceRecord3 rr =
     (if rr = 8 then Inl ''unsupported''
      else Inr (Some [(''Header'', JMap [(''Class'', JNum 1), (''Name'', JString ''example.com.'')]),
                      (''Ttl'', JNum (int rr))]))"

definition ex_GetByIp2 :: "string \<Rightarrow> Endpoint option" where
  "ex_GetByIp2 ip = Some \<lparr> HwAddress = ''aa:bb:cc:dd:ee:ff'', Alias = ''laptop'' \<rparr>"

definition ex_GetByIp :: "string \<Rightarrow> Endpoint option" where
  "ex_GetByIp ip = None"

definition ex_query :: "nat list \<Rightarrow> nat dns_Msg" where
  "ex_query answers =
     \<lparr> MsgHdr = \<lparr> dns_MsgHdr.Id = 42, dns_MsgHdr.Response = False, dns_MsgHdr.Opcode = 0,
                  dns_MsgHdr.Authoritative = False, dns_MsgHdr.Truncated = False,
                  dns_MsgHdr.RecursionDesired = True, dns_MsgHdr.RecursionAvailable = False,
                  dns_MsgHdr.Zero = False, dns_MsgHdr.AuthenticatedData = False,
                  dns_MsgHdr.CheckingDisabled = False, dns_MsgHdr.Rcode = 0 \<rparr>,
       dns_Msg.Compress = False,
       Question = [\<lparr> Name = ''example.com.'', Qtype = 1, Qclass = 1 \<rparr>],
       Answer = answers,
       Ns = [9],
       Extra = [] \<rparr>"

definition ex_jsquery :: JSQuery where
  "ex_jsquery = fst (NewJSQuery ex_NewJSResourceRecord ex_GetByIp (ex_query [7, 8, 9]) ''10.0.0.1'')"

text \<open>A query whose question name is the single byte 0xFF, which is not valid UTF-8, the
  \<open>JSQuery\<close> built from it, and that \<open>JSQuery\<close> after a script has set the name to the
  single byte 0xFE.\<close>

definition cex_query :: "nat dns_Msg" where
  "cex_query =
     \<lparr> MsgHdr = \<lparr> dns_MsgHdr.Id = 42, dns_MsgHdr.Response = False, dns_MsgHdr.Opcode = 0,
                  dns_MsgHdr.Authoritative = False, dns_MsgHdr.Truncated = False,
                  dns_MsgHdr.RecursionDesired = True, dns_MsgHdr.RecursionAvailable = False,
                  dns_MsgHdr.Zero = False, dns_MsgHdr.AuthenticatedData = False,
                  dns_MsgHdr.CheckingDisabled = False, dns_MsgHdr.Rcode = 0 \<rparr>,
       dns_Msg.Compress = False,
       Question = [\<lparr> Name = [CHR 0xFF], Qtype = 1, Qclass = 1 \<rparr>],
       Answer = [],
       Ns = [],
       Extra = [] \<rparr>"

definition cex_jsquery :: JSQuery where
  "cex_jsquery = fst (NewJSQuery ex_NewJSResourceRecord ex_GetByIp cex_query ''10.0.0.1'')"

definition cex_edited :: JSQuery where
  "cex_edited = cex_jsquery\<lparr>Questions :=
     Some [Some [(''Name'', JString [CHR 0xFE]), (''Qtype'', JNum 1), (''Qclass'', JNum 1)]]\<rparr>"

section \<open>Properties\<close>

subsection \<open>The fingerprint methods\<close>

lemma NewHash_snd: "snd (NewHash j) = j"
  by (simp add: NewHash_def Let_def)

lemma UpdateHash_eq: "UpdateHash j = j\<lparr>refHash := fst (NewHash j)\<rparr>"
  by (simp add: UpdateHash_def NewHash_def Let_def)

lemma NewHash_refHash: "fst (NewHash (j\<lparr>refHash := r\<rparr>)) = fst (NewHash j)"
  by (simp add: NewHash_def Let_def)

lemma WasModified_eq: "WasModified j = (fst (NewHash j) \<noteq> refHash j, j)"
  by (simp add: WasModified_def NewHash_def Let_def)

lemma UpdateHash_fields:
  "Answers (UpdateHash j) = Answers j" "Extras (UpdateHash j) = Extras j"
  "Nameservers (UpdateHash j) = Nameservers j" "Questions (UpdateHash j) = Questions j"
  "Client (UpdateHash j) = Client j" "JSQuery.Compress (UpdateHash j) = JSQuery.Compress j"
  "Header (UpdateHash j) = Header j"
  by (simp_all add: UpdateHash_def NewHash_def Let_def)

lemma UpdateHash_fresh:
  "fst (WasModified (UpdateHash j)) = False" "refHash (UpdateHash j) = fst (NewHash (UpdateHash j))"
  by (simp_all add: WasModified_eq UpdateHash_eq NewHash_refHash)

subsection \<open>The loops\<close>

lemma rr_loop_eq: "rr_loop f xs acc lg = (acc @ oks f xs, lg @ errs f xs)"
  by (induction xs arbitrary: acc lg) (auto simp: oks_def errs_def split: sum.splits)

lemma question_loop_eq: "question_loop qs acc = acc @ map to_question qs"
  by (induction qs arbitrary: acc) (auto simp: to_question_def)

lemma records_loop_snd: "snd (records_loop enc i rrs slots lg) = lg @ errs enc rrs"
  by (induction rrs arbitrary: i slots lg) (auto simp: errs_def split: sum.splits)

lemma records_loop_fst:
  "length pre = i \<Longrightarrow> length mid = length rrs \<Longrightarrow>
   fst (records_loop enc i rrs (pre @ mid @ post) lg) =
     pre @ map2 (\<lambda>rr old. case enc rr of Inl e \<Rightarrow> old | Inr js \<Rightarrow> js) rrs mid @ post"
proof (induction rrs arbitrary: i pre mid lg)
  case Nil
  then show ?case by simp
next
  case (Cons rr rest)
  from Cons.prems obtain old mid' where
    mid: "mid = old # mid'" and len: "length mid' = length rest"
    by (cases mid) auto
  show ?case
  proof (cases "enc rr")
    case (Inl e)
    have "fst (records_loop enc (Suc i) rest ((pre @ [old]) @ mid' @ post) (lg @ [e])) =
          (pre @ [old])
            @ map2 (\<lambda>rr old. case enc rr of Inl e \<Rightarrow> old | Inr js \<Rightarrow> js) rest mid' @ post"
      by (rule Cons.IH) (simp_all add: Cons.prems len)
    then show ?thesis by (simp add: Inl mid)
  next
    case (Inr js)
    have upd: "(pre @ old # mid' @ post)[i := js] = (pre @ [js]) @ mid' @ post"
      using Cons.prems(1) by (simp add: list_update_append)
    have "fst (records_loop enc (Suc i) rest ((pre @ [js]) @ mid' @ post) lg) =
          (pre @ [js])
            @ map2 (\<lambda>rr old. case enc rr of Inl e \<Rightarrow> old | Inr js \<Rightarrow> js) rest mid' @ post"
      by (rule Cons.IH) (simp_all add: Cons.prems len)
    then show ?thesis using upd by (simp add: Inr mid)
  qed
qed

lemma records_loop_fresh:
  "fst (records_loop enc 0 rrs (replicate (length rrs) None) lg) = map (slot_of enc) rrs"
proof -
  have "map2 (\<lambda>rr old. case enc rr of Inl e \<Rightarrow> old | Inr js \<Rightarrow> js) rrs
          (replicate (length rrs) None) = map (slot_of enc) rrs"
    by (induction rrs) (auto simp: slot_of_def)
  then show ?thesis
    using records_loop_fst [of "[]" 0 "replicate (length rrs) None" rrs enc "[]" lg] by simp
qed

lemma records_loop_eq:
  "records_loop enc 0 rrs (replicate (length rrs) None) lg =
     (map (slot_of enc) rrs, lg @ errs enc rrs)"
  by (rule prod_eqI) (simp_all add: records_loop_fresh records_loop_snd)

lemma questions_loop_fst:
  "i + length qs \<le> length slots \<Longrightarrow>
   questions_loop i qs slots =
     take i slots @ map question_map qs @ drop (i + length qs) slots"
proof (induction qs arbitrary: i slots)
  case Nil
  then show ?case by simp
next
  case (Cons q rest)
  then have i: "i < length slots" by simp
  show ?case using Cons i
    by (simp add: take_Suc_conv_app_nth question_map_def)
qed

lemma questions_loop_fresh:
  "questions_loop 0 qs (replicate (length qs) None) = map question_map qs"
  by (simp add: questions_loop_fst)

lemma oks_append: "oks f (xs @ ys) = oks f xs @ oks f ys"
  by (simp add: oks_def)

lemma errs_append: "errs f (xs @ ys) = errs f xs @ errs f ys"
  by (simp add: errs_def)

lemma oks_all_ok:
  "\<forall>x \<in> set xs. \<exists>y. f x = Inr y \<Longrightarrow> map Inr (oks f xs) = map f xs \<and> errs f xs = []"
  by (induction xs) (auto simp: oks_def errs_def)

subsection \<open>The two conversions in closed form\<close>

lemma NewJSQuery_eq:
  "NewJSQuery enc lan m ip =
     (UpdateHash \<lparr>
        Answers = Some (map (slot_of enc) (Answer m)),
        Client = [''IP'' \<mapsto> ip,
                  ''MAC'' \<mapsto> (case lan ip of None \<Rightarrow> [] | Some e \<Rightarrow> HwAddress e),
                  ''Alias'' \<mapsto> (case lan ip of None \<Rightarrow> [] | Some e \<Rightarrow> Alias e)],
        Compress = dns_Msg.Compress m,
        Extras = Some (map (slot_of enc) (Extra m)),
        Header = \<lparr>
          AuthenticatedData = dns_MsgHdr.AuthenticatedData (MsgHdr m),
          Authoritative = dns_MsgHdr.Authoritative (MsgHdr m),
          CheckingDisabled = dns_MsgHdr.CheckingDisabled (MsgHdr m),
          Id = dns_MsgHdr.Id (MsgHdr m),
          Opcode = dns_MsgHdr.Opcode (MsgHdr m),
          Rcode = dns_MsgHdr.Rcode (MsgHdr m),
          RecursionAvailable = dns_MsgHdr.RecursionAvailable (MsgHdr m),
          RecursionDesired = dns_MsgHdr.RecursionDesired (MsgHdr m),
          Response = dns_MsgHdr.Response (MsgHdr m),
          Truncated = dns_MsgHdr.Truncated (MsgHdr m),
          Zero = dns_MsgHdr.Zero (MsgHdr m) \<rparr>,
        Nameservers = Some (map (slot_of enc) (Ns m)),
        Questions = Some (map question_map (Question m)),
        refHash = [] \<rparr>,
      errs enc (Answer m) @ errs enc (Extra m) @ errs enc (Ns m))"
  by (simp add: NewJSQuery_def Let_def records_loop_eq questions_loop_fresh
        split: option.splits)

lemma ToQuery_eq:
  "ToQuery dec j =
    ((\<lparr> MsgHdr = \<lparr>
          dns_MsgHdr.Id = JSQueryHeader.Id (Header j),
          dns_MsgHdr.Response = JSQueryHeader.Response (Header j),
          dns_MsgHdr.Opcode = JSQueryHeader.Opcode (Header j),
          dns_MsgHdr.Authoritative = JSQueryHeader.Authoritative (Header j),
          dns_MsgHdr.Truncated = JSQueryHeader.Truncated (Header j),
          dns_MsgHdr.RecursionDesired = JSQueryHeader.RecursionDesired (Header j),
          dns_MsgHdr.RecursionAvailable = JSQueryHeader.RecursionAvailable (Header j),
          dns_MsgHdr.Zero = JSQueryHeader.Zero (Header j),
          dns_MsgHdr.AuthenticatedData = JSQueryHeader.AuthenticatedData (Header j),
          dns_MsgHdr.CheckingDisabled = JSQueryHeader.CheckingDisabled (Header j),
          dns_MsgHdr.Rcode = JSQueryHeader.Rcode (Header j) \<rparr>,
        dns_Msg.Compress = JSQuery.Compress j,
        Question = map to_question (elems (Questions j)),
        Answer = oks dec (elems (Answers j)),
        Ns = oks dec (elems (Nameservers j)),
        Extra = oks dec (elems (Extras j)) \<rparr>,
      errs dec (elems (Answers j)) @ errs dec (elems (Extras j))
        @ errs dec (elems (Nameservers j))), j)"
  by (simp add: ToQuery_def Let_def rr_loop_eq question_loop_eq)




lemma ex_jsquery_eq:
  "Answers ex_jsquery = Some [Some [(''Ttl'', JNum 7)], None, Some [(''Ttl'', JNum 9)]]"
  "Extras ex_jsquery = Some []"
  "Nameservers ex_jsquery = Some [Some [(''Ttl'', JNum 9)]]"
  "Questions ex_jsquery =
     Some [Some [(''Name'', JString ''example.com.''), (''Qtype'', JNum 1),
                 (''Qclass'', JNum 1)]]"
  by (simp_all add: ex_jsquery_def NewJSQuery_eq UpdateHash_fields ex_query_def slot_of_def
        ex_NewJSResourceRecord_def question_map_def)

subsection \<open>The order of the keys of an object\<close>

text \<open>\<open>str_less\<close> is a strict linear order, so a list of fields with distinct keys has
  one sorted arrangement: \<open>sort_fields\<close> gives the same list for every order in which
  the fields come.\<close>

lemma str_less_irrefl: "\<not> str_less x x"
  by (induction x) simp_all

lemma str_less_trans: "str_less x y \<Longrightarrow> str_less y z \<Longrightarrow> str_less x z"
proof (induction x y arbitrary: z rule: str_less.induct)
  case 1
  then show ?case by simp
next
  case (2 y ys)
  then show ?case by (cases z) simp_all
next
  case (3 x xs)
  then show ?case by simp
next
  case (4 x xs y ys)
  then show ?case by (cases z) auto
qed

lemma str_less_total: "x \<noteq> y \<Longrightarrow> str_less x y \<or> str_less y x"
proof (induction x y rule: str_less.induct)
  case (4 x xs y ys)
  show ?case
  proof (cases "x = y")
    case True
    then show ?thesis using 4 by auto
  next
    case False
    then have "(of_char x :: nat) < of_char y \<or> (of_char y :: nat) < of_char x"
      by (metis of_char_eq_iff linorder_neqE_nat)
    then show ?thesis by auto
  qed
qed simp_all

lemma set_insert_field: "set (insert_field kv xs) = insert kv (set xs)"
  by (induction xs) auto

lemma set_sort_fields: "set (sort_fields xs) = set xs"
  by (induction xs) (simp_all add: sort_fields_def set_insert_field)

lemma sorted_insert_field:
  "sorted_wrt (\<lambda>a b. str_less (fst a) (fst b)) xs \<Longrightarrow> fst kv \<notin> fst ` set xs \<Longrightarrow>
     sorted_wrt (\<lambda>a b. str_less (fst a) (fst b)) (insert_field kv xs)"
proof (induction xs)
  case Nil
  then show ?case by simp
next
  case (Cons x xs)
  show ?case
  proof (cases "str_less (fst x) (fst kv)")
    case True
    then show ?thesis using Cons by (auto simp: set_insert_field)
  next
    case False
    moreover have "fst kv \<noteq> fst x" using Cons.prems(2) by auto
    ultimately have lt: "str_less (fst kv) (fst x)" using str_less_total by blast
    have "\<forall>y \<in> set xs. str_less (fst kv) (fst y)"
      using Cons.prems(1) lt str_less_trans by auto
    then show ?thesis using False lt Cons.prems(1) by simp
  qed
qed

lemma sorted_sort_fields:
  "distinct (map fst xs) \<Longrightarrow> sorted_wrt (\<lambda>a b. str_less (fst a) (fst b)) (sort_fields xs)"
proof (induction xs)
  case Nil
  then show ?case by (simp add: sort_fields_def)
next
  case (Cons x xs)
  then have "sorted_wrt (\<lambda>a b. str_less (fst a) (fst b)) (sort_fields xs)"
    and "fst x \<notin> fst ` set (sort_fields xs)"
    by (simp_all add: set_sort_fields)
  then have "sorted_wrt (\<lambda>a b. str_less (fst a) (fst b)) (insert_field x (sort_fields xs))"
    by (rule sorted_insert_field)
  then show ?case by (simp add: sort_fields_def)
qed

lemma sorted_fields_unique:
  "sorted_wrt (\<lambda>a b. str_less (fst a) (fst b)) xs \<Longrightarrow>
   sorted_wrt (\<lambda>a b. str_less (fst a) (fst b)) ys \<Longrightarrow> set xs = set ys \<Longrightarrow> xs = ys"
proof (induction xs arbitrary: ys)
  case Nil
  then show ?case by simp
next
  case (Cons x xs)
  then obtain y ys' where ys: "ys = y # ys'" by (cases ys) auto
  have xy: "x = y"
  proof (rule ccontr)
    assume ne: "x \<noteq> y"
    have "x \<in> set ys'" using Cons.prems(3) ne by (auto simp: ys)
    then have 1: "str_less (fst y) (fst x)" using Cons.prems(2) by (simp add: ys)
    have "y \<in> set xs" using Cons.prems(3) ne by (auto simp: ys)
    then have 2: "str_less (fst x) (fst y)" using Cons.prems(1) by simp
    show False using str_less_trans [OF 1 2] str_less_irrefl by blast
  qed
  have nx: "x \<notin> set xs" using Cons.prems(1) str_less_irrefl by auto
  have ny: "y \<notin> set ys'" using Cons.prems(2) str_less_irrefl by (auto simp: ys)
  have "set xs = set ys'" using Cons.prems(3) nx ny xy by (auto simp: ys)
  then have "xs = ys'" using Cons.IH [of ys'] Cons.prems(1,2) by (simp add: ys)
  then show ?case by (simp add: ys xy)
qed

lemma sort_fields_cong:
  "distinct (map fst xs) \<Longrightarrow> distinct (map fst ys) \<Longrightarrow> set xs = set ys \<Longrightarrow>
     sort_fields xs = sort_fields ys"
  by (intro sorted_fields_unique sorted_sort_fields) (simp_all add: set_sort_fields)

subsection \<open>The JSON text does not depend on the order of the entries of a map\<close>

lemma marshal_fields_None:
  "marshal_fields kvs = None
     \<longleftrightarrow> (\<exists>k. (k, None) \<in> (\<lambda>kv. (fst kv, marshal_val (snd kv))) ` set kvs)"
proof (induction kvs)
  case Nil
  then show ?case by simp
next
  case (Cons kv kvs)
  show ?case
  proof (cases "marshal_val (snd kv)")
    case None
    then show ?thesis by force
  next
    case (Some s)
    then show ?thesis using Cons by (auto split: option.splits)
  qed
qed

lemma marshal_fields_Some:
  "marshal_fields kvs = Some r \<Longrightarrow>
     map fst r = map fst kvs
     \<and> set r = {(k, s). (k, Some s) \<in> (\<lambda>kv. (fst kv, marshal_val (snd kv))) ` set kvs}"
proof (induction kvs arbitrary: r)
  case Nil
  then show ?case by simp
next
  case (Cons kv kvs)
  then obtain s r' where s: "marshal_val (snd kv) = Some s" and r': "marshal_fields kvs = Some r'"
    and r: "r = (fst kv, s) # r'"
    by (auto split: option.splits)
  show ?case using Cons.IH [OF r'] s by (auto simp: r)
qed

lemma entries_image_eq:
  fixes g :: "string \<times> 'a \<Rightarrow> string \<times> 'b"
  assumes g: "\<And>p. fst (g p) = fst p"
    and d: "distinct (map fst xs)" and d': "distinct (map fst ys)"
    and l: "length xs = length ys" and sub: "g ` set xs \<subseteq> g ` set ys"
  shows "g ` set xs = g ` set ys"
proof -
  have dx: "distinct (map g xs)"
  proof -
    have "distinct (map fst (map g xs))" using d by (simp add: comp_def g)
    then show ?thesis by (metis distinct_map)
  qed
  have dy: "distinct (map g ys)"
  proof -
    have "distinct (map fst (map g ys))" using d' by (simp add: comp_def g)
    then show ?thesis by (metis distinct_map)
  qed
  have "card (set (map g xs)) = card (set (map g ys))"
    using distinct_card [OF dx] distinct_card [OF dy] l by simp
  moreover have "set (map g xs) \<subseteq> set (map g ys)" using sub by simp
  ultimately have "set (map g xs) = set (map g ys)"
    by (intro card_subset_eq) simp_all
  then show ?thesis by simp
qed

lemma marshal_fields_cong:
  assumes d: "distinct (map fst kvs)" and d': "distinct (map fst kvs')"
    and e: "(\<lambda>kv. (fst kv, marshal_val (snd kv))) ` set kvs
              = (\<lambda>kv. (fst kv, marshal_val (snd kv))) ` set kvs'"
  shows "map_option json_object (marshal_fields kvs) = map_option json_object (marshal_fields kvs')"
proof -
  have iff: "marshal_fields kvs = None \<longleftrightarrow> marshal_fields kvs' = None"
    unfolding marshal_fields_None e ..
  show ?thesis
  proof (cases "marshal_fields kvs")
  case None
  then show ?thesis using iff by simp
next
  case (Some r)
  then obtain r' where r': "marshal_fields kvs' = Some r'" using iff by auto
  note a = marshal_fields_Some [OF Some] and b = marshal_fields_Some [OF r']
  have "set r = set r'" using a b e by simp
  moreover have "distinct (map fst r)" "distinct (map fst r')" using a b d d' by simp_all
  ultimately have "sort_fields r = sort_fields r'" by (intro sort_fields_cong)
  then show ?thesis by (simp add: Some r' json_object_def)
qed
qed

lemma same_marshal:
  "same_val v w \<longrightarrow> marshal_val v = marshal_val w"
  "same_vals vs ws \<longrightarrow> marshal_vals vs = marshal_vals ws"
  "same_entries kvs kvs' \<longrightarrow>
     (\<forall>kv \<in> set kvs. \<exists>w. (fst kv, w) \<in> set kvs' \<and> marshal_val (snd kv) = marshal_val w)"
proof (induction v w and vs ws and kvs kvs' rule: same_val_same_vals_same_entries.induct)
  case (6 vs w)
  then show ?case by (auto split: jsval.splits)
next
  case (7 kvs w)
  show ?case
  proof
    assume s: "same_val (JMap kvs) w"
    then obtain kvs' where w: "w = JMap kvs'" by (cases w) simp_all
    from s have d: "distinct (map fst kvs)" and d': "distinct (map fst kvs')"
      and l: "length kvs = length kvs'" and e: "same_entries kvs kvs'"
      by (simp_all add: w)
    let ?g = "\<lambda>kv :: string \<times> jsval. (fst kv, marshal_val (snd kv))"
    have "\<forall>kv \<in> set kvs. \<exists>w. (fst kv, w) \<in> set kvs' \<and> marshal_val (snd kv) = marshal_val w"
      using 7 [OF w] e by blast
    then have "?g ` set kvs \<subseteq> ?g ` set kvs'" by force
    then have "?g ` set kvs = ?g ` set kvs'"
      using d d' l by (intro entries_image_eq) simp_all
    then show "marshal_val (JMap kvs) = marshal_val w"
      using marshal_fields_cong [OF d d'] by (simp add: w)
  qed
next
  case (9 v vs ws)
  show ?case
  proof
    assume s: "same_vals (v # vs) ws"
    then obtain w ws' where ws: "ws = w # ws'" and sv: "same_val v w" and sr: "same_vals vs ws'"
      by (auto split: list.splits)
    have "marshal_val v = marshal_val w" using "9.IH"(1) [OF ws] sv by blast
    moreover have "marshal_vals vs = marshal_vals ws'" using "9.IH"(2) [OF ws] sr by blast
    ultimately show "marshal_vals (v # vs) = marshal_vals ws"
      by (simp add: ws split: option.splits)
  qed
next
  case (11 kv kvs kvs')
  show ?case
  proof
    assume s: "same_entries (kv # kvs) kvs'"
    then obtain w where w: "map_of kvs' (fst kv) = Some w" and sv: "same_val (snd kv) w"
      and r: "same_entries kvs kvs'"
      by (auto split: option.splits)
    have "(fst kv, w) \<in> set kvs'" using w by (rule map_of_SomeD)
    moreover have "marshal_val (snd kv) = marshal_val w" using "11.IH"(1) [OF w] sv by blast
    ultimately show "\<forall>kv \<in> set (kv # kvs).
        \<exists>w. (fst kv, w) \<in> set kvs' \<and> marshal_val (snd kv) = marshal_val w"
      using "11.IH"(2) r by auto
  qed
qed simp_all

lemma same_slice_marshal:
  "same_val (slice_val a) (slice_val b) \<Longrightarrow> json_Marshal a = json_Marshal b"
  using same_marshal(1) by (simp add: json_Marshal_def)

subsection \<open>Equal data, equal JSON text\<close>

lemma same_slots:
  assumes "\<forall>rr \<in> set rrs. same_result (enc rr) (enc' rr)"
  shows "same_vals (map (\<lambda>rr. map_val (slot_of enc rr)) rrs) (map (\<lambda>rr. map_val (slot_of enc' rr)) rrs)"
  using assms
proof (induction rrs)
  case Nil
  show ?case by simp
next
  case (Cons rr rrs)
  have "same_result (enc rr) (enc' rr)"
    using Cons.prems by simp
  then have h: "same_val (map_val (slot_of enc rr)) (map_val (slot_of enc' rr))"
    by (cases "enc rr"; cases "enc' rr") (simp_all add: same_result_def slot_of_def map_val_def)
  have t: "same_vals (map (\<lambda>rr. map_val (slot_of enc rr)) rrs) (map (\<lambda>rr. map_val (slot_of enc' rr)) rrs)"
    using Cons.prems by (intro Cons.IH) simp
  show ?case
    using h t by simp
qed

lemma same_slots_marshal:
  assumes "\<forall>rr \<in> set rrs. same_result (enc rr) (enc' rr)"
  shows "json_Marshal (Some (map (slot_of enc) rrs)) = json_Marshal (Some (map (slot_of enc') rrs))"
  by (rule same_slice_marshal) (simp add: slice_val_def comp_def same_slots [OF assms])

subsection \<open>The fingerprint of an edited question list\<close>

lemma hash_Questions:
  "json_Marshal a = json_Marshal (Questions j)
     \<Longrightarrow> fst (NewHash (j\<lparr>Questions := a\<rparr>)) = fst (NewHash j)"
  by (simp add: NewHash_def Let_def)

lemma cex_marshal:
  "json_Marshal (Some [Some [(''Name'', JString [CHR 0xFE]), (''Qtype'', JNum 1), (''Qclass'', JNum 1)]])
   = json_Marshal (Some [Some [(''Name'', JString [CHR 0xFF]), (''Qtype'', JNum 1), (''Qclass'', JNum 1)]])"
  by (simp add: json_Marshal_def slice_val_def map_val_def json_string_def rune_size_def
        lead_info_def)

section \<open>The claims\<close>




text \<open>
  Claim C2 (a failing record during construction). The claim says that the slot of a record
  the converter rejects is omitted from the list. The code makes each list at the full
  length of the record list and stores a converted record at its own index, so the slot
  of a rejected record stays in the list as the nil map. Here the second of three answers
  is rejected: \<open>Answers\<close> has three entries, the second one nil, and one error is logged.
\<close>

theorem NewJSQuery_failed_record_leaves_nil_slot:
  "Answers (fst (NewJSQuery ex_NewJSResourceRecord ex_GetByIp (ex_query [7, 8, 9]) ''10.0.0.1''))
     = Some [Some [(''Ttl'', JNum 7)], None, Some [(''Ttl'', JNum 9)]]
   \<and> snd (NewJSQuery ex_NewJSResourceRecord ex_GetByIp (ex_query [7, 8, 9]) ''10.0.0.1'')
     = [''unknown type'']
   \<and> ex_NewJSResourceRecord 8 = Inl ''unknown type''"
  by (simp add: NewJSQuery_def Let_def ex_query_def ex_NewJSResourceRecord_def UpdateHash_def
        NewHash_def ex_GetByIp_def)

text \<open>
  Claim C3 (sensitivity of the fingerprint). The claim says that changing any field of a
  question map of a fresh \<open>JSQuery\<close> makes \<open>WasModified\<close> true, and the comment on
  \<open>WasModified\<close> says that it checks whether any of the fields has been changed. The code
  does not: the fingerprint holds the JSON text of the questions, and \<open>json.Marshal\<close>
  writes every byte that is not valid UTF-8 as the same replacement character. The query
  below has one question, with the name 0xFF; \<open>NewJSQuery\<close> builds the \<open>JSQuery\<close>, on
  which \<open>WasModified\<close> is false; then the name is set to 0xFE. The two names differ, and
  \<open>ToQuery\<close> sends different questions, yet \<open>WasModified\<close> is still false.
\<close>

theorem question_name_edit_not_detected:
  "fst (WasModified cex_jsquery) = False
   \<and> Questions cex_jsquery =
       Some [Some [(''Name'', JString [CHR 0xFF]), (''Qtype'', JNum 1), (''Qclass'', JNum 1)]]
   \<and> Questions cex_edited =
       Some [Some [(''Name'', JString [CHR 0xFE]), (''Qtype'', JNum 1), (''Qclass'', JNum 1)]]
   \<and> fst (WasModified cex_edited) = False
   \<and> map Name (Question (fst (fst (ToQuery ex_ToRR cex_jsquery)))) = [[CHR 0xFF]]
   \<and> map Name (Question (fst (fst (ToQuery ex_ToRR cex_edited)))) = [[CHR 0xFE]]"
proof -
  have fresh: "fst (WasModified cex_jsquery) = False"
    by (simp add: cex_jsquery_def NewJSQuery_eq UpdateHash_fresh)
  have q0: "Questions cex_jsquery =
       Some [Some [(''Name'', JString [CHR 0xFF]), (''Qtype'', JNum 1), (''Qclass'', JNum 1)]]"
    by (simp add: cex_jsquery_def NewJSQuery_eq UpdateHash_fields cex_query_def question_map_def)
  have q1: "Questions cex_edited =
       Some [Some [(''Name'', JString [CHR 0xFE]), (''Qtype'', JNum 1), (''Qclass'', JNum 1)]]"
    by (simp add: cex_edited_def)
  have r: "refHash cex_jsquery = fst (NewHash cex_jsquery)"
    using fresh by (simp add: WasModified_eq)
  have "fst (NewHash cex_edited) = fst (NewHash cex_jsquery)"
    unfolding cex_edited_def by (rule hash_Questions) (simp only: q0 cex_marshal)
  then have edited: "fst (WasModified cex_edited) = False"
    by (simp add: WasModified_eq) (simp add: cex_edited_def r)
  have n0: "map Name (Question (fst (fst (ToQuery ex_ToRR cex_jsquery)))) = [[CHR 0xFF]]"
    by (simp add: ToQuery_eq q0 elems_def to_question_def jsPropToString_def js_lookup_def)
  have n1: "map Name (Question (fst (fst (ToQuery ex_ToRR cex_edited)))) = [[CHR 0xFE]]"
    by (simp add: ToQuery_eq q1 elems_def to_question_def jsPropToString_def js_lookup_def)
  show ?thesis using fresh q0 q1 edited n0 n1 by simp
qed

text \<open>
  Claim C4 (determinism of the fingerprint). Two \<open>JSQuery\<close> values that hold the same
  data in \<open>Answers\<close>, \<open>Extras\<close>, \<open>Nameservers\<close> and \<open>Questions\<close> (the same maps in
  the same positions, whatever the order in which the entries of each map are listed, at
  every depth), and have the same client IP, \<open>Compress\<close> and \<open>Header\<close>, have the same
  fingerprint, whatever else differs (the other client entries, \<open>refHash\<close>): the encoder
  writes the keys of every map in sorted order, and an error of the encoder is the same
  error on both sides. In particular take two runs of \<open>NewJSQuery\<close> on the same wire
  message and client IP, where the record converter of the second run returns for every
  record the same result as in the first run (an error, or a map with the same data, its
  entries in any order), and the address books may differ: both runs give the same
  fingerprint and store the same \<open>refHash\<close>.
\<close>

theorem NewHash_deterministic:
  "(same_val (slice_val (Answers a)) (slice_val (Answers b))
      \<and> same_val (slice_val (Extras a)) (slice_val (Extras b))
      \<and> same_val (slice_val (Nameservers a)) (slice_val (Nameservers b))
      \<and> same_val (slice_val (Questions a)) (slice_val (Questions b))
      \<and> map_get (Client a) ''IP'' = map_get (Client b) ''IP''
      \<and> JSQuery.Compress a = JSQuery.Compress b \<and> Header a = Header b
     \<longrightarrow> fst (NewHash a) = fst (NewHash b))
   \<and> ((\<forall>rr \<in> set (Answer m) \<union> set (Extra m) \<union> set (Ns m). same_result (enc rr) (enc' rr))
     \<longrightarrow> fst (NewHash (fst (NewJSQuery enc lan m ip)))
           = fst (NewHash (fst (NewJSQuery enc' lan' m ip)))
         \<and> refHash (fst (NewJSQuery enc lan m ip)) = refHash (fst (NewJSQuery enc' lan' m ip)))"
proof (intro conjI impI)
  assume h: "same_val (slice_val (Answers a)) (slice_val (Answers b))
      \<and> same_val (slice_val (Extras a)) (slice_val (Extras b))
      \<and> same_val (slice_val (Nameservers a)) (slice_val (Nameservers b))
      \<and> same_val (slice_val (Questions a)) (slice_val (Questions b))
      \<and> map_get (Client a) ''IP'' = map_get (Client b) ''IP''
      \<and> JSQuery.Compress a = JSQuery.Compress b \<and> Header a = Header b"
  have "json_Marshal (Answers a) = json_Marshal (Answers b)"
    "json_Marshal (Extras a) = json_Marshal (Extras b)"
    "json_Marshal (Nameservers a) = json_Marshal (Nameservers b)"
    "json_Marshal (Questions a) = json_Marshal (Questions b)"
    using h by (simp_all add: same_slice_marshal)
  then show "fst (NewHash a) = fst (NewHash b)"
    using h by (simp add: NewHash_def Let_def)
next
  assume h: "\<forall>rr \<in> set (Answer m) \<union> set (Extra m) \<union> set (Ns m). same_result (enc rr) (enc' rr)"
  have a: "\<forall>rr \<in> set (Answer m). same_result (enc rr) (enc' rr)"
    and e: "\<forall>rr \<in> set (Extra m). same_result (enc rr) (enc' rr)"
    and n: "\<forall>rr \<in> set (Ns m). same_result (enc rr) (enc' rr)"
    using h by auto
  show eq: "fst (NewHash (fst (NewJSQuery enc lan m ip)))
           = fst (NewHash (fst (NewJSQuery enc' lan' m ip)))"
    by (simp add: NewJSQuery_eq UpdateHash_eq NewHash_refHash)
       (simp add: NewHash_def Let_def map_get_def same_slots_marshal [OF a]
          same_slots_marshal [OF e] same_slots_marshal [OF n])
  obtain j j' where j: "fst (NewJSQuery enc lan m ip) = UpdateHash j"
    and j': "fst (NewJSQuery enc' lan' m ip) = UpdateHash j'"
    by (simp add: NewJSQuery_eq)
  show "refHash (fst (NewJSQuery enc lan m ip)) = refHash (fst (NewJSQuery enc' lan' m ip))"
    using eq unfolding j j' by (simp add: UpdateHash_fresh)
qed

theorem NewHash_deterministic_witness:
  "same_result (ex_NewJSResourceRecord2 7) (ex_NewJSResourceRecord3 7)
   \<and> same_result (ex_NewJSResourceRecord2 8) (ex_NewJSResourceRecord3 8)
   \<and> same_result (ex_NewJSResourceRecord2 9) (ex_NewJSResourceRecord3 9)
   \<and> Answers (fst (NewJSQuery ex_NewJSResourceRecord2 ex_GetByIp (ex_query [7, 8]) ''10.0.0.1''))
       \<noteq> Answers (fst (NewJSQuery ex_NewJSResourceRecord3 ex_GetByIp2 (ex_query [7, 8]) ''10.0.0.1''))
   \<and> same_val
        (slice_val (Answers (fst (NewJSQuery ex_NewJSResourceRecord2 ex_GetByIp (ex_query [7, 8]) ''10.0.0.1''))))
        (slice_val (Answers (fst (NewJSQuery ex_NewJSResourceRecord3 ex_GetByIp2 (ex_query [7, 8]) ''10.0.0.1''))))
   \<and> Client (fst (NewJSQuery ex_NewJSResourceRecord2 ex_GetByIp (ex_query [7, 8]) ''10.0.0.1'')) ''MAC''
       \<noteq> Client (fst (NewJSQuery ex_NewJSResourceRecord3 ex_GetByIp2 (ex_query [7, 8]) ''10.0.0.1'')) ''MAC''
   \<and> fst (NewHash (fst (NewJSQuery ex_NewJSResourceRecord2 ex_GetByIp (ex_query [7, 8]) ''10.0.0.1'')))
       = fst (NewHash (fst (NewJSQuery ex_NewJSResourceRecord3 ex_GetByIp2 (ex_query [7, 8]) ''10.0.0.1'')))
   \<and> refHash (fst (NewJSQuery ex_NewJSResourceRecord2 ex_GetByIp (ex_query [7, 8]) ''10.0.0.1''))
       = refHash (fst (NewJSQuery ex_NewJSResourceRecord3 ex_GetByIp2 (ex_query [7, 8]) ''10.0.0.1''))"
proof -
  let ?a = "fst (NewJSQuery ex_NewJSResourceRecord2 ex_GetByIp (ex_query [7, 8]) ''10.0.0.1'')"
  let ?b = "fst (NewJSQuery ex_NewJSResourceRecord3 ex_GetByIp2 (ex_query [7, 8]) ''10.0.0.1'')"
  have r: "same_result (ex_NewJSResourceRecord2 7) (ex_NewJSResourceRecord3 7)"
      "same_result (ex_NewJSResourceRecord2 8) (ex_NewJSResourceRecord3 8)"
      "same_result (ex_NewJSResourceRecord2 9) (ex_NewJSResourceRecord3 9)"
    by (simp_all add: same_result_def ex_NewJSResourceRecord2_def ex_NewJSResourceRecord3_def
          map_val_def)
  have l: "Answer (ex_query [7, 8]) = [7, 8]" "Ns (ex_query [7, 8]) = [9]"
      "Extra (ex_query [7, 8]) = []"
    by (simp_all add: ex_query_def)
  have h: "\<forall>rr \<in> set (Answer (ex_query [7, 8])) \<union> set (Extra (ex_query [7, 8]))
                  \<union> set (Ns (ex_query [7, 8])).
      same_result (ex_NewJSResourceRecord2 rr) (ex_NewJSResourceRecord3 rr)"
    by (simp add: l r)
  have ans: "Answers ?a = Some [Some [(''Ttl'', JNum 7),
        (''Header'', JMap [(''Name'', JString ''example.com.''), (''Class'', JNum 1)])], None]"
      "Answers ?b = Some [Some [(''Header'', JMap [(''Class'', JNum 1),
        (''Name'', JString ''example.com.'')]), (''Ttl'', JNum 7)], None]"
    by (simp_all add: NewJSQuery_eq UpdateHash_fields l slot_of_def
          ex_NewJSResourceRecord2_def ex_NewJSResourceRecord3_def)
  have ne: "Answers ?a \<noteq> Answers ?b"
    by (simp add: ans)
  have sv: "same_val (slice_val (Answers ?a)) (slice_val (Answers ?b))"
    by (simp add: ans slice_val_def map_val_def)
  have sv': "same_val (slice_val (Extras ?a)) (slice_val (Extras ?b))"
      "same_val (slice_val (Nameservers ?a)) (slice_val (Nameservers ?b))"
      "same_val (slice_val (Questions ?a)) (slice_val (Questions ?b))"
    by (simp_all add: NewJSQuery_eq UpdateHash_fields l slot_of_def slice_val_def map_val_def
          ex_NewJSResourceRecord2_def ex_NewJSResourceRecord3_def ex_query_def question_map_def)
  have rest: "map_get (Client ?a) ''IP'' = map_get (Client ?b) ''IP''"
      "JSQuery.Compress ?a = JSQuery.Compress ?b" "Header ?a = Header ?b"
    by (simp_all add: NewJSQuery_eq UpdateHash_fields map_get_def)
  have mac: "Client ?a ''MAC'' \<noteq> Client ?b ''MAC''"
    by (simp add: NewJSQuery_eq UpdateHash_fields ex_GetByIp_def ex_GetByIp2_def)
  note T = NewHash_deterministic [of ?a ?b "ex_query [7, 8]" ex_NewJSResourceRecord2
      ex_NewJSResourceRecord3 ex_GetByIp "''10.0.0.1''" ex_GetByIp2]
  have g: "fst (NewHash ?a) = fst (NewHash ?b)"
    using T [THEN conjunct1] sv sv' rest by blast
  have g': "fst (NewHash ?a) = fst (NewHash ?b) \<and> refHash ?a = refHash ?b"
    using T [THEN conjunct2] h by blast
  show ?thesis using r ne sv mac g g' by blast
qed

text \<open>
  Claim C5 (partial failure during reconstruction). If \<open>ToRR\<close> fails on exactly one
  record of \<open>Answers\<close>, the answers of the wire message are the conversions of the other
  records, in their order, so one fewer than \<open>Answers\<close> has; the failure adds exactly one
  entry to the log, in front of what the \<open>Extras\<close> and \<open>Nameservers\<close> loops log by
  themselves; and \<open>Extra\<close>, \<open>Ns\<close> and \<open>Question\<close> of the result do not depend on
  \<open>Answers\<close> at all. \<open>ToQuery\<close> has no error result: it always returns a message.
\<close>

theorem ToQuery_partial_failure:
  assumes "elems (Answers j) = pre @ [bad] @ post"
    and "ToRR bad = Inl err"
    and "\<forall>jsRR \<in> set (pre @ post). \<exists>rr. ToRR jsRR = Inr rr"
  shows "map Inr (Answer (fst (fst (ToQuery ToRR j)))) = map ToRR (pre @ post)
       \<and> length (Answer (fst (fst (ToQuery ToRR j)))) = length (elems (Answers j)) - 1
       \<and> snd (fst (ToQuery ToRR j)) = err # snd (fst (ToQuery ToRR (j\<lparr>Answers := Some []\<rparr>)))
       \<and> Extra (fst (fst (ToQuery ToRR j))) = Extra (fst (fst (ToQuery ToRR (j\<lparr>Answers := a\<rparr>))))
       \<and> Ns (fst (fst (ToQuery ToRR j))) = Ns (fst (fst (ToQuery ToRR (j\<lparr>Answers := a\<rparr>))))
       \<and> Question (fst (fst (ToQuery ToRR j)))
           = Question (fst (fst (ToQuery ToRR (j\<lparr>Answers := a\<rparr>))))"
proof -
  have p: "\<forall>x \<in> set pre. \<exists>y. ToRR x = Inr y" and q: "\<forall>x \<in> set post. \<exists>y. ToRR x = Inr y"
    using assms(3) by auto
  have bad: "oks ToRR [bad] = []" "errs ToRR [bad] = [err]"
    using assms(2) by (simp_all add: oks_def errs_def)
  have ans: "oks ToRR (elems (Answers j)) = oks ToRR pre @ oks ToRR post"
  proof -
    have "oks ToRR (pre @ [bad] @ post) = oks ToRR pre @ oks ToRR [bad] @ oks ToRR post"
      by (simp only: oks_append)
    then show ?thesis by (simp only: assms(1) bad) simp
  qed
  have m: "map Inr (oks ToRR (elems (Answers j))) = map ToRR (pre @ post)"
    using oks_all_ok [OF p] oks_all_ok [OF q] by (simp add: ans)
  have l: "length (oks ToRR (elems (Answers j))) = length (elems (Answers j)) - 1"
  proof -
    have "length (map Inr (oks ToRR (elems (Answers j))) :: (string + 'a) list)
            = length (map ToRR (pre @ post))"
      by (simp only: m)
    then show ?thesis by (simp add: assms(1))
  qed
  have e: "errs ToRR (elems (Answers j)) = [err]"
  proof -
    have "errs ToRR pre = []" "errs ToRR post = []"
      using oks_all_ok [OF p] oks_all_ok [OF q] by simp_all
    moreover have "errs ToRR (pre @ [bad] @ post)
                     = errs ToRR pre @ errs ToRR [bad] @ errs ToRR post"
      by (simp only: errs_append)
    ultimately show ?thesis by (simp only: assms(1) bad) simp
  qed
  show ?thesis
    using m l e by (simp add: ToQuery_eq errs_def elems_def)
qed

theorem ToQuery_partial_failure_witness:
  "elems (Answers ex_jsquery) = [Some [(''Ttl'', JNum 7)]] @ [None] @ [Some [(''Ttl'', JNum 9)]]
   \<and> ex_ToRR None = Inl ''invalid record''
   \<and> ex_ToRR (Some [(''Ttl'', JNum 7)]) = Inr 7
   \<and> ex_ToRR (Some [(''Ttl'', JNum 9)]) = Inr 9
   \<and> Answer (fst (fst (ToQuery ex_ToRR ex_jsquery))) = [7, 9]
   \<and> snd (fst (ToQuery ex_ToRR ex_jsquery)) = [''invalid record'']
   \<and> Ns (fst (fst (ToQuery ex_ToRR ex_jsquery))) = [9]"
proof -
  have h1: "elems (Answers ex_jsquery)
      = [Some [(''Ttl'', JNum 7)]] @ [None] @ [Some [(''Ttl'', JNum 9)]]"
    by (simp add: ex_jsquery_eq elems_def)
  have h2: "ex_ToRR None = Inl ''invalid record''"
    by (simp add: ex_ToRR_def js_lookup_def)
  have h3: "\<forall>jsRR \<in> set ([Some [(''Ttl'', JNum 7)]] @ [Some [(''Ttl'', JNum 9)]]).
         \<exists>rr. ex_ToRR jsRR = Inr rr"
    by (simp add: ex_ToRR_def js_lookup_def)
  have rest: "snd (fst (ToQuery ex_ToRR (ex_jsquery\<lparr>Answers := Some []\<rparr>))) = []"
    "Ns (fst (fst (ToQuery ex_ToRR (ex_jsquery\<lparr>Answers := Some []\<rparr>)))) = [9]"
    by (simp_all add: ToQuery_eq ex_jsquery_eq elems_def oks_def errs_def ex_ToRR_def
          js_lookup_def)
  have conv: "ex_ToRR (Some [(''Ttl'', JNum 7)]) = Inr 7" "ex_ToRR (Some [(''Ttl'', JNum 9)]) = Inr 9"
    by (simp_all add: ex_ToRR_def js_lookup_def)
  note T = ToQuery_partial_failure [OF h1 h2 h3, of "Some []"]
  have "map (Inr :: nat \<Rightarrow> string + nat) (Answer (fst (fst (ToQuery ex_ToRR ex_jsquery))))
          = map Inr [7, 9]"
    using T conv by simp
  then have a: "Answer (fst (fst (ToQuery ex_ToRR ex_jsquery))) = [7, 9]"
    by (auto simp: map_eq_Cons_conv)
  have l: "snd (fst (ToQuery ex_ToRR ex_jsquery)) = [''invalid record'']"
    using T rest by simp
  have n: "Ns (fst (fst (ToQuery ex_ToRR ex_jsquery))) = [9]"
    using T rest by simp
  show ?thesis using h1 h2 conv a l n by blast
qed

text \<open>
  Claim C6 (tolerant coercion of question fields). \<open>ToQuery\<close> builds one wire question
  for every question map. Where \<open>Qtype\<close> is missing or not a number the question has
  \<open>Qtype = 0\<close>; likewise \<open>Qclass\<close>; where \<open>Name\<close> is missing or not a string the
  question has the empty name. No error result exists for \<open>ToQuery\<close>.
\<close>

theorem ToQuery_tolerant_coercion:
  assumes "i < length (elems (Questions j))"
  shows "length (Question (fst (fst (ToQuery ToRR j)))) = length (elems (Questions j))
       \<and> ((\<nexists>n. js_lookup (elems (Questions j) ! i) ''Qtype'' = Some (JNum n))
            \<longrightarrow> Qtype (Question (fst (fst (ToQuery ToRR j))) ! i) = 0)
       \<and> ((\<nexists>n. js_lookup (elems (Questions j) ! i) ''Qclass'' = Some (JNum n))
            \<longrightarrow> Qclass (Question (fst (fst (ToQuery ToRR j))) ! i) = 0)
       \<and> ((\<nexists>s. js_lookup (elems (Questions j) ! i) ''Name'' = Some (JString s))
            \<longrightarrow> Name (Question (fst (fst (ToQuery ToRR j))) ! i) = [])"
  using assms
  by (auto simp: ToQuery_eq to_question_def jsPropToUint16_def jsPropToString_def
           split: option.splits jsval.splits)

theorem ToQuery_tolerant_coercion_witness:
  "0 < length (elems (Questions (ex_jsquery\<lparr>Questions := Some [Some [(''Name'', JNum 5), (''Qtype'', JString ''A'')]]\<rparr>)))
   \<and> (\<nexists>n. js_lookup (elems (Questions (ex_jsquery\<lparr>Questions := Some [Some [(''Name'', JNum 5), (''Qtype'', JString ''A'')]]\<rparr>)) ! 0) ''Qtype'' = Some (JNum n))
   \<and> (\<nexists>n. js_lookup (elems (Questions (ex_jsquery\<lparr>Questions := Some [Some [(''Name'', JNum 5), (''Qtype'', JString ''A'')]]\<rparr>)) ! 0) ''Qclass'' = Some (JNum n))
   \<and> (\<nexists>s. js_lookup (elems (Questions (ex_jsquery\<lparr>Questions := Some [Some [(''Name'', JNum 5), (''Qtype'', JString ''A'')]]\<rparr>)) ! 0) ''Name'' = Some (JString s))
   \<and> Question (fst (fst (ToQuery ex_ToRR (ex_jsquery\<lparr>Questions := Some [Some [(''Name'', JNum 5), (''Qtype'', JString ''A'')]]\<rparr>))))
       = [\<lparr> Name = [], Qtype = 0, Qclass = 0 \<rparr>]"
proof -
  let ?j = "ex_jsquery\<lparr>Questions := Some [Some [(''Name'', JNum 5), (''Qtype'', JString ''A'')]]\<rparr>"
  have h: "0 < length (elems (Questions ?j))" by (simp add: elems_def)
  have l: "js_lookup (elems (Questions ?j) ! 0) ''Qtype'' = Some (JString ''A'')"
      "js_lookup (elems (Questions ?j) ! 0) ''Qclass'' = None"
      "js_lookup (elems (Questions ?j) ! 0) ''Name'' = Some (JNum 5)"
    by (simp_all add: js_lookup_def elems_def)
  obtain q where q: "Question (fst (fst (ToQuery ex_ToRR ?j))) = [q]"
    using ToQuery_tolerant_coercion [OF h, of ex_ToRR]
    by (cases "Question (fst (fst (ToQuery ex_ToRR ?j)))") (auto simp: elems_def)
  have "Qtype q = 0" "Qclass q = 0" "Name q = []"
    using ToQuery_tolerant_coercion [OF h, of ex_ToRR] l by (simp_all add: q elems_def)
  then have "q = \<lparr> Name = [], Qtype = 0, Qclass = 0 \<rparr>"
    by (cases q) simp
  then show ?thesis using h l q by simp
qed

text \<open>
  Claim C7 (construction leaves the query unmodified). \<open>NewJSQuery\<close> ends with
  \<open>UpdateHash\<close>, so the stored \<open>refHash\<close> is the fingerprint of the value it returns and
  \<open>WasModified\<close> is false on it.
\<close>

theorem NewJSQuery_not_modified:
  "fst (WasModified (fst (NewJSQuery enc lan m ip))) = False
   \<and> refHash (fst (NewJSQuery enc lan m ip)) = fst (NewHash (fst (NewJSQuery enc lan m ip)))"
proof -
  obtain j where j: "fst (NewJSQuery enc lan m ip) = UpdateHash j"
    by (simp add: NewJSQuery_eq)
  show ?thesis
    by (simp add: j UpdateHash_fresh)
qed

text \<open>
  Claim C8 (\<open>WasModified\<close> is a pure predicate). \<open>WasModified\<close> is true exactly when
  \<open>NewHash\<close> differs from the stored \<open>refHash\<close>; it leaves the \<open>JSQuery\<close> as it was, so
  after any number of calls the value is unchanged and the answer is the same.
\<close>

theorem WasModified_pure:
  "WasModified j = (fst (NewHash j) \<noteq> refHash j, j)
   \<and> ((snd \<circ> WasModified) ^^ n) j = j
   \<and> fst (WasModified (((snd \<circ> WasModified) ^^ n) j)) = fst (WasModified j)"
proof -
  have it: "((snd \<circ> WasModified) ^^ n) j = j"
    by (induction n) (simp_all add: WasModified_eq)
  show ?thesis by (simp add: it) (simp add: WasModified_eq)
qed

text \<open>
  Claim C9 (only the client IP enters the fingerprint). Setting or deleting any entry of
  \<open>Client\<close> other than \<open>IP\<close> (the MAC, the alias, a new key) leaves \<open>NewHash\<close> unchanged,
  and so leaves the answer of \<open>WasModified\<close> unchanged.
\<close>

theorem NewHash_ignores_other_client_keys:
  assumes "k \<noteq> ''IP''"
  shows "fst (NewHash (j\<lparr>Client := (Client j)(k := v)\<rparr>)) = fst (NewHash j)
       \<and> fst (WasModified (j\<lparr>Client := (Client j)(k := v)\<rparr>)) = fst (WasModified j)"
  using assms by (simp add: WasModified_eq) (simp add: NewHash_def Let_def map_get_def)

theorem NewHash_ignores_other_client_keys_witness:
  "''MAC'' \<noteq> ''IP''
   \<and> Client (ex_jsquery\<lparr>Client := (Client ex_jsquery)(''MAC'' \<mapsto> ''aa:bb:cc:dd:ee:ff'')\<rparr>) ''MAC''
       \<noteq> Client ex_jsquery ''MAC''
   \<and> fst (NewHash (ex_jsquery\<lparr>Client := (Client ex_jsquery)(''MAC'' \<mapsto> ''aa:bb:cc:dd:ee:ff'')\<rparr>))
       = fst (NewHash ex_jsquery)
   \<and> fst (WasModified (ex_jsquery\<lparr>Client := (Client ex_jsquery)(''MAC'' \<mapsto> ''aa:bb:cc:dd:ee:ff'')\<rparr>))
       = False"
proof -
  have h: "''MAC'' \<noteq> ''IP''" by simp
  have mac: "Client ex_jsquery ''MAC'' = Some []"
    by (simp add: ex_jsquery_def NewJSQuery_eq UpdateHash_fields ex_GetByIp_def)
  have fresh: "fst (WasModified ex_jsquery) = False"
    by (simp add: ex_jsquery_def NewJSQuery_eq UpdateHash_fresh)
  show ?thesis
    using NewHash_ignores_other_client_keys [OF h, of ex_jsquery "Some ''aa:bb:cc:dd:ee:ff''"]
      mac fresh by simp
qed

text \<open>
  Claim C10 (\<open>ToQuery\<close> does not change its receiver). After \<open>ToQuery\<close> the
  \<open>JSQuery\<close> is the one it was called on, field by field and \<open>refHash\<close> included, so
  \<open>WasModified\<close> answers as before. (The record codec is a function of the map it is
  given; it cannot write to it.)
\<close>

theorem ToQuery_frame:
  "snd (ToQuery ToRR j) = j
   \<and> refHash (snd (ToQuery ToRR j)) = refHash j
   \<and> WasModified (snd (ToQuery ToRR j)) = WasModified j"
  by (simp add: ToQuery_eq)

end
